theory Spec2Isabelle
  imports Complex_Main "HOL-Library.AList" "HOL-Library.Char_ord" "HOL-Library.List_Lexorder"
begin

section \<open>Python values, samples and JSON documents\<close>

text \<open>
  The tools in \<^verbatim>\<open>core/tools/exporter.py\<close> and \<^verbatim>\<open>core/tools/export.py\<close> read and write
  fields of samples of a dataset. A field holds a Python value. The number type \<open>'n\<close> of
  box coordinates and of float-valued fields is left abstract: the code adds two
  coordinates with Python's \<open>+\<close>, written \<open>+\<close> of the class \<open>plus\<close> here, and tests a
  number for truth by comparing it with zero.
\<close>

record 'n detection =
  label :: string
  bounding_box :: "'n list"
  confidence :: "'n option"

datatype 'n pyval =
    PNone
  | PBool bool
  | PInt int
  | PFloat 'n
  | PStr string
  | PList "'n pyval list"
  | PTuple "'n pyval list"
  | PDict "(string \<times> 'n pyval) list"
  | PMeta int int int
  | PDets "'n detection list"

text \<open>
  \<open>PMeta height width num_channels\<close> is an image metadata object, \<open>PDets ds\<close> a
  detections label whose \<open>detections\<close> attribute is \<open>ds\<close>. A dict is an association
  list in insertion order; \<open>AList.update\<close> is the assignment \<^verbatim>\<open>d[k] = v\<close>.
\<close>

datatype error = KeyError | AttributeError | IndexError | TypeError | ValueError

text \<open>
  A sample has its media path and its named fields. A field of the dataset's schema
  that has no value on the sample is present with the value \<open>PNone\<close>.
\<close>

record 'n sample =
  filepath :: string
  sample_fields :: "(string \<times> 'n pyval) list"

datatype 'n json =
    JNull
  | JBool bool
  | JInt int
  | JFloat 'n
  | JStr string
  | JArr "'n json list"
  | JObj "(string \<times> 'n json) list"

text \<open>The truth value that \<^verbatim>\<open>if vv:\<close> tests. Metadata and label objects are true.\<close>

fun truthy :: "('n::zero) pyval \<Rightarrow> bool" where
  "truthy PNone = False"
| "truthy (PBool b) = b"
| "truthy (PInt i) = (i \<noteq> 0)"
| "truthy (PFloat x) = (x \<noteq> 0)"
| "truthy (PStr s) = (s \<noteq> [])"
| "truthy (PList xs) = (xs \<noteq> [])"
| "truthy (PTuple xs) = (xs \<noteq> [])"
| "truthy (PDict kvs) = (kvs \<noteq> [])"
| "truthy (PMeta h w c) = True"
| "truthy (PDets ds) = True"

subsection \<open>Sample field access\<close>

definition has_field :: "'n sample \<Rightarrow> string \<Rightarrow> bool" where
  "has_field s k = (map_of (sample_fields s) k \<noteq> None)"

text \<open>\<^verbatim>\<open>sample.get_field(k)\<close> and \<^verbatim>\<open>sample[k]\<close>: the value, or an error for an unknown field.\<close>

definition get_field :: "'n sample \<Rightarrow> string \<Rightarrow> error + 'n pyval" where
  "get_field s k = (case map_of (sample_fields s) k of None \<Rightarrow> Inl KeyError | Some v \<Rightarrow> Inr v)"

text \<open>
  Modelled from the spec: \<^verbatim>\<open>core.utils.get_sample_field\<close> is not among the source files.
  The spec's field accessor: given a sample and a field name, return the field's value
  or a supplied default if the field is missing; no error is raised for a missing field.
\<close>

definition get_sample_field :: "'n sample \<Rightarrow> string \<Rightarrow> 'n pyval \<Rightarrow> 'n pyval" where
  "get_sample_field s k dflt = (case map_of (sample_fields s) k of None \<Rightarrow> dflt | Some v \<Rightarrow> v)"

definition set_field :: "'n sample \<Rightarrow> string \<Rightarrow> 'n pyval \<Rightarrow> 'n sample" where
  "set_field s k v = s\<lparr>sample_fields := AList.update k v (sample_fields s)\<rparr>"

text \<open>\<^verbatim>\<open>sample.update_fields(d)\<close> assigns every item of \<open>d\<close>, in the order of \<open>d\<close>.\<close>

fun update_fields :: "'n sample \<Rightarrow> (string \<times> 'n pyval) list \<Rightarrow> 'n sample" where
  "update_fields s [] = s"
| "update_fields s ((k, v) # kvs) = update_fields (set_field s k v) kvs"

text \<open>
  \<^verbatim>\<open>sample.clear_field(k)\<close> resets the field's value to \<^verbatim>\<open>None\<close>; the library call is
  taken to succeed.
\<close>

definition clear_field :: "'n sample \<Rightarrow> string \<Rightarrow> 'n sample" where
  "clear_field s k = set_field s k PNone"

subsection \<open>Paths (\<^verbatim>\<open>os.path\<close> on POSIX)\<close>

definition basename :: "string \<Rightarrow> string" where
  "basename p = rev (takeWhile (\<lambda>c. c \<noteq> CHR ''/'') (rev p))"

text \<open>
  \<^verbatim>\<open>os.path.splitext(p)[0]\<close>: the path without the extension of its last component,
  where dots that lead the component do not start an extension.
\<close>

definition splitext_root :: "string \<Rightarrow> string" where
  "splitext_root p =
     (let base = basename p;
          dir = take (length p - length base) p;
          stem = rev (drop 1 (dropWhile (\<lambda>c. c \<noteq> CHR ''.'') (rev base)))
      in if CHR ''.'' \<in> set base \<and> list_ex (\<lambda>c. c \<noteq> CHR ''.'') stem then dir @ stem else p)"

text \<open>\<^verbatim>\<open>os.path.split(p)[0]\<close>: the directory part, without trailing slashes unless it is the root.\<close>

definition split_head :: "string \<Rightarrow> string" where
  "split_head p =
     (let head = take (length p - length (basename p)) p
      in if list_ex (\<lambda>c. c \<noteq> CHR ''/'') head
         then rev (dropWhile (\<lambda>c. c = CHR ''/'') (rev head)) else head)"

definition path_join :: "string \<Rightarrow> string \<Rightarrow> string" where
  "path_join a b =
     (if take 1 b = ''/'' then b
      else if a = [] \<or> drop (length a - 1) a = ''/'' then a @ b
      else a @ ''/'' @ b)"

text \<open>\<^verbatim>\<open>sample.filename\<close> is the basename of the sample's path.\<close>

definition filename :: "'n sample \<Rightarrow> string" where
  "filename s = basename (filepath s)"

subsection \<open>\<^verbatim>\<open>json.dump(result, fw, indent=4, sort_keys=True)\<close>\<close>

text \<open>
  The written document, with the items of every object sorted by key. Tuples are
  written as arrays. A metadata or label object is not serialisable.
\<close>

fun to_json :: "'n pyval \<Rightarrow> error + 'n json"
  and to_json_list :: "'n pyval list \<Rightarrow> error + 'n json list"
  and to_json_items :: "(string \<times> 'n pyval) list \<Rightarrow> error + (string \<times> 'n json) list" where
  "to_json PNone = Inr JNull"
| "to_json (PBool b) = Inr (JBool b)"
| "to_json (PInt i) = Inr (JInt i)"
| "to_json (PFloat x) = Inr (JFloat x)"
| "to_json (PStr s) = Inr (JStr s)"
| "to_json (PList xs) = (case to_json_list xs of Inl e \<Rightarrow> Inl e | Inr js \<Rightarrow> Inr (JArr js))"
| "to_json (PTuple xs) = (case to_json_list xs of Inl e \<Rightarrow> Inl e | Inr js \<Rightarrow> Inr (JArr js))"
| "to_json (PDict kvs) =
     (case to_json_items kvs of Inl e \<Rightarrow> Inl e | Inr js \<Rightarrow> Inr (JObj (sort_key fst js)))"
| "to_json (PMeta h w c) = Inl TypeError"
| "to_json (PDets ds) = Inl TypeError"
| "to_json_list [] = Inr []"
| "to_json_list (x # xs) =
     (case to_json x of Inl e \<Rightarrow> Inl e
      | Inr j \<Rightarrow> (case to_json_list xs of Inl e \<Rightarrow> Inl e | Inr js \<Rightarrow> Inr (j # js)))"
| "to_json_items [] = Inr []"
| "to_json_items ((k, x) # kvs) =
     (case to_json x of Inl e \<Rightarrow> Inl e
      | Inr j \<Rightarrow> (case to_json_items kvs of Inl e \<Rightarrow> Inl e | Inr js \<Rightarrow> Inr ((k, j) # js)))"


section \<open>The annotation serializer\<close>

subsection \<open>\<^verbatim>\<open>_export_one_sample_anno\<close> of \<^verbatim>\<open>exporter.py\<close>\<close>

definition need_export_map :: "(string \<times> string) list" where
  "need_export_map =
     [(''data_source'', ''data_source''), (''img_quality'', ''img_quality''),
      (''additions'', ''additions''), (''tags'', ''sample_tags''), (''chiebot_ID'', ''ID'')]"

text \<open>The loop \<^verbatim>\<open>for k, v in need_export_map.items()\<close> of \<^verbatim>\<open>exporter.py\<close>.\<close>

fun export_fields ::
  "('n::zero) sample \<Rightarrow> (string \<times> string) list \<Rightarrow> (string \<times> 'n pyval) list
    \<Rightarrow> (string \<times> 'n pyval) list" where
  "export_fields s [] result = result"
| "export_fields s ((k, v) # kvs) result =
     (let vv = get_sample_field s k PNone
      in export_fields s kvs (if truthy vv then AList.update v vv result else result))"

text \<open>
  \<^verbatim>\<open>(sample["metadata"].height, sample["metadata"].width, sample["metadata"].num_channels)\<close>:
  a value that is no metadata object has none of the three attributes.
\<close>

definition img_shape :: "'n sample \<Rightarrow> error + 'n pyval" where
  "img_shape s =
     (case get_field s ''metadata'' of
        Inl e \<Rightarrow> Inl e
      | Inr (PMeta h w c) \<Rightarrow> Inr (PTuple [PInt h, PInt w, PInt c])
      | Inr _ \<Rightarrow> Inl AttributeError)"

text \<open>
  One object record. The code reads \<^verbatim>\<open>det.bounding_box\<close> at the indices 0 to 3, so a
  box with fewer than four coordinates raises.
\<close>

definition export_obj :: "('n::plus) detection \<Rightarrow> error + 'n pyval" where
  "export_obj det =
     (case bounding_box det of
        x # y # w # h # rest \<Rightarrow>
          Inr (PDict
            [(''name'', PStr (label det)),
             (''pose'', PStr ''Unspecified''),
             (''truncated'', PInt 0),
             (''difficult'', PInt 0),
             (''mask'', PList []),
             (''confidence'', PInt (- 1)),
             (''quality'', PInt 10),
             (''bbox'', PTuple [PFloat x, PFloat y, PFloat (x + w), PFloat (y + h)])])
      | _ \<Rightarrow> Inl IndexError)"

text \<open>The loop \<^verbatim>\<open>for det in dets.detections\<close>, appending to \<^verbatim>\<open>result["objs_info"]\<close>.\<close>

fun export_objs :: "('n::plus) detection list \<Rightarrow> 'n pyval list \<Rightarrow> error + 'n pyval list" where
  "export_objs [] objs_info = Inr objs_info"
| "export_objs (det # dets) objs_info =
     (case export_obj det of
        Inl e \<Rightarrow> Inl e
      | Inr obj \<Rightarrow> export_objs dets (objs_info @ [obj]))"

text \<open>
  \<^verbatim>\<open>exporter.py\<close>, lines 28 to 76. The result is the file written, as its path and its document,
  and the value returned (\<open>None\<close> for Python's \<^verbatim>\<open>None\<close>); an exception is \<open>Inl\<close>.
\<close>

definition export_one_sample_anno ::
  "('n::{zero,plus}) sample \<Rightarrow> string \<Rightarrow> error + ((string \<times> 'n json) \<times> string option)" where
  "export_one_sample_anno s save_dir =
     (let result = export_fields s need_export_map [];
          result = AList.update ''chiebot_sample_tags''
                     (get_sample_field s ''chiebot_sample_tags'' (PList [])) result
      in case img_shape s of
           Inl e \<Rightarrow> Inl e
         | Inr shape \<Rightarrow>
             (let result = AList.update ''img_shape'' shape result;
                  dets = get_sample_field s ''ground_truth'' PNone
              in case (if truthy dets
                       then (case dets of PDets ds \<Rightarrow> export_objs ds []
                                        | _ \<Rightarrow> Inl AttributeError)
                       else Inr []) of
                   Inl e \<Rightarrow> Inl e
                 | Inr objs_info \<Rightarrow>
                     (let result = AList.update ''objs_info'' (PList objs_info) result;
                          save_path = path_join save_dir (splitext_root (filename s) @ ''.anno'')
                      in case to_json (PDict result) of
                           Inl e \<Rightarrow> Inl e
                         | Inr doc \<Rightarrow> Inr ((save_path, doc), None))))"

subsection \<open>\<^verbatim>\<open>_export_one_sample_anno\<close> of \<^verbatim>\<open>export.py\<close>\<close>

definition need_export_map_export_py :: "(string \<times> string) list" where
  "need_export_map_export_py =
     [(''data_source'', ''data_source''), (''img_quality'', ''img_quality''),
      (''additions'', ''additions''), (''tags'', ''sample_tags''), (''chiebot_ID'', ''ID'')]"

text \<open>The loop \<^verbatim>\<open>for k, v in need_export_map.items()\<close> of \<^verbatim>\<open>export.py\<close>.\<close>

fun export_fields_export_py ::
  "('n::zero) sample \<Rightarrow> (string \<times> string) list \<Rightarrow> (string \<times> 'n pyval) list
    \<Rightarrow> (string \<times> 'n pyval) list" where
  "export_fields_export_py s [] result = result"
| "export_fields_export_py s ((k, v) # kvs) result =
     (let vv = get_sample_field s k PNone
      in export_fields_export_py s kvs (if truthy vv then AList.update v vv result else result))"

text \<open>
  \<^verbatim>\<open>(sample["metadata"].height, sample["metadata"].width, sample["metadata"].num_channels)\<close>:
  a value that is no metadata object has none of the three attributes.
\<close>

definition img_shape_export_py :: "'n sample \<Rightarrow> error + 'n pyval" where
  "img_shape_export_py s =
     (case get_field s ''metadata'' of
        Inl e \<Rightarrow> Inl e
      | Inr (PMeta h w c) \<Rightarrow> Inr (PTuple [PInt h, PInt w, PInt c])
      | Inr _ \<Rightarrow> Inl AttributeError)"

text \<open>
  One object record. The code reads \<^verbatim>\<open>det.bounding_box\<close> at the indices 0 to 3, so a
  box with fewer than four coordinates raises.
\<close>

definition export_obj_export_py :: "('n::plus) detection \<Rightarrow> error + 'n pyval" where
  "export_obj_export_py det =
     (case bounding_box det of
        x # y # w # h # rest \<Rightarrow>
          Inr (PDict
            [(''name'', PStr (label det)),
             (''pose'', PStr ''Unspecified''),
             (''truncated'', PInt 0),
             (''difficult'', PInt 0),
             (''mask'', PList []),
             (''confidence'', PInt (- 1)),
             (''quality'', PInt 10),
             (''bbox'', PTuple [PFloat x, PFloat y, PFloat (x + w), PFloat (y + h)])])
      | _ \<Rightarrow> Inl IndexError)"

text \<open>The loop \<^verbatim>\<open>for det in dets.detections\<close>, appending to \<^verbatim>\<open>result["objs_info"]\<close>.\<close>

fun export_objs_export_py :: "('n::plus) detection list \<Rightarrow> 'n pyval list \<Rightarrow> error + 'n pyval list" where
  "export_objs_export_py [] objs_info = Inr objs_info"
| "export_objs_export_py (det # dets) objs_info =
     (case export_obj_export_py det of
        Inl e \<Rightarrow> Inl e
      | Inr obj \<Rightarrow> export_objs_export_py dets (objs_info @ [obj]))"

text \<open>
  \<^verbatim>\<open>export.py\<close>, lines 27 to 76. The result is the file written, as its path and its document,
  and the value returned (\<open>None\<close> for Python's \<^verbatim>\<open>None\<close>); an exception is \<open>Inl\<close>.
\<close>

definition export_one_sample_anno_export_py ::
  "('n::{zero,plus}) sample \<Rightarrow> string \<Rightarrow> error + ((string \<times> 'n json) \<times> string option)" where
  "export_one_sample_anno_export_py s save_dir =
     (let result = export_fields_export_py s need_export_map_export_py [];
          result = AList.update ''chiebot_sample_tags''
                     (get_sample_field s ''chiebot_sample_tags'' (PList [])) result
      in case img_shape_export_py s of
           Inl e \<Rightarrow> Inl e
         | Inr shape \<Rightarrow>
             (let result = AList.update ''img_shape'' shape result;
                  dets = get_sample_field s ''ground_truth'' PNone
              in case (if truthy dets
                       then (case dets of PDets ds \<Rightarrow> export_objs_export_py ds []
                                        | _ \<Rightarrow> Inl AttributeError)
                       else Inr []) of
                   Inl e \<Rightarrow> Inl e
                 | Inr objs_info \<Rightarrow>
                     (let result = AList.update ''objs_info'' (PList objs_info) result;
                          save_path = path_join save_dir (splitext_root (filename s) @ ''.anno'')
                      in case to_json (PDict result) of
                           Inl e \<Rightarrow> Inl e
                         | Inr doc \<Rightarrow> Inr ((save_path, doc), Some save_path))))"


section \<open>The world of the tools\<close>

text \<open>
  What a call does beyond returning a value is recorded, in order, as a trace of
  effects: log lines, directories and files written, calls to the collaborators that
  read the disk, saves of samples and of the dataset, calls to the exporter object and
  the refresh of the session.
\<close>

datatype 'n effect =
    Warning string
  | Mkdir string
  | WriteFile string "'n json"
  | Md5sum string
  | ParseSampleInfo string
  | ContextSave string
  | Autosave string
  | AddSample string
  | DatasetSave
  | SessionRefresh
  | ExporterOpen string "(string \<times> 'n pyval) list"
  | LogCollection
  | BuildFor string
  | ExportSample string "'n pyval" "'n pyval"
  | ExporterClose

text \<open>
  A dataset is the list of its sample objects, in order. \<^verbatim>\<open>img_path in dataset\<close> and
  \<^verbatim>\<open>dataset[img_path]\<close> look a sample up by its path and take the first one found.
  The code mutates the sample object it holds; \<open>put_sample\<close> writes the object's new
  state at its place in the list. Whether a mutation reaches the backing store is
  decided by the saves, which the trace records.
\<close>

type_synonym 'n dataset = "'n sample list"

definition getitem :: "'n dataset \<Rightarrow> string \<Rightarrow> 'n sample option" where
  "getitem dataset img_path = find (\<lambda>s. filepath s = img_path) dataset"

fun put_sample :: "string \<Rightarrow> 'n sample \<Rightarrow> 'n dataset \<Rightarrow> 'n dataset" where
  "put_sample img_path s' [] = []"
| "put_sample img_path s' (s # dataset) =
     (if filepath s = img_path then s' # dataset else s # put_sample img_path s' dataset)"

record session =
  selected :: "string list"

text \<open>
  Modelled from the spec: \<^verbatim>\<open>core.cache.WEAK_CACHE\<close> is not among the source files. The
  spec's weak cache is a process-wide key/value store that holds the current dataset and
  the current session; \<^verbatim>\<open>WEAK_CACHE.get(key, None)\<close> reads an entry. The world is the
  cache with its two entries and the trace so far.
\<close>

record 'n world =
  cache_dataset :: "'n dataset option"
  cache_session :: "session option"
  trace :: "'n effect list"

text \<open>
  Parameters of the model: the disk as \<^verbatim>\<open>os.path.exists\<close> sees it, the collaborators
  whose code is not among the source files (\<^verbatim>\<open>md5sum\<close> and \<^verbatim>\<open>get_all_file_path\<close> of
  \<^verbatim>\<open>core.utils\<close>, with its optional \<^verbatim>\<open>filter_\<close> argument; \<^verbatim>\<open>parse_sample_info\<close> and
  \<^verbatim>\<open>generate_sgcc_sample\<close> of \<^verbatim>\<open>core.importer\<close>), the exporter's
  \<^verbatim>\<open>requires_image_metadata\<close> and the library's \<^verbatim>\<open>ImageMetadata.build_for\<close>.
\<close>

record 'n env =
  path_exists :: "string \<Rightarrow> bool"
  md5sum :: "string \<Rightarrow> string"
  get_all_file_path :: "string \<Rightarrow> string list option \<Rightarrow> string list"
  parse_sample_info :: "string \<Rightarrow> 'n pyval \<times> 'n pyval \<times> (string \<times> 'n pyval) list"
  generate_sgcc_sample :: "string \<Rightarrow> 'n sample"
  requires_image_metadata :: bool
  build_for :: "string \<Rightarrow> 'n pyval"

section \<open>The dataset updater\<close>

text \<open>
  \<^verbatim>\<open>update_dataset\<close>, lines 197 to 213: one media file that is a member of the cached
  dataset. The result is the sample object after the iteration and the effects of the
  iteration. \<^verbatim>\<open>continue\<close> leaves the iteration before \<^verbatim>\<open>context.save(sample)\<close>, which
  stands inside \<^verbatim>\<open>if sample.has_field("xml_md5")\<close>.
\<close>

definition unattached_member :: "'n env \<Rightarrow> 'n sample \<Rightarrow> 'n sample \<times> 'n effect list" where
  "unattached_member env sample =
     (let xml_path = splitext_root (filepath sample) @ ''.xml'' in
      if \<not> path_exists env xml_path then (clear_field sample ''ground_truth'', [])
      else
        (let xml_md5 = md5sum env xml_path in
         if has_field sample ''xml_md5'' then
           (if get_field sample ''xml_md5'' \<noteq> Inr (PStr xml_md5) then
              (case parse_sample_info env (filepath sample) of
                 (img_meta, label_info, anno_dict) \<Rightarrow>
                   (update_fields (update_fields sample anno_dict)
                      [(''metadata'', img_meta), (''ground_truth'', label_info),
                       (''xml_md5'', PStr xml_md5)],
                    [Md5sum xml_path, ParseSampleInfo (filepath sample),
                     ContextSave (filepath sample)]))
            else (sample, [Md5sum xml_path, ContextSave (filepath sample)]))
         else (sample, [Md5sum xml_path])))"

text \<open>
  Lines 190 to 215: the loop over the media files of the dataset's directory. A file
  that is no member is added as the sample that \<^verbatim>\<open>generate_sgcc_sample\<close> builds.
\<close>

fun unattached_loop ::
  "'n env \<Rightarrow> string list \<Rightarrow> 'n dataset \<Rightarrow> 'n effect list \<Rightarrow> 'n dataset \<times> 'n effect list" where
  "unattached_loop env [] dataset tr = (dataset, tr)"
| "unattached_loop env (img_path # imgs_path) dataset tr =
     (case getitem dataset img_path of
        Some sample \<Rightarrow>
          (case unattached_member env sample of
             (sample', effs) \<Rightarrow>
               unattached_loop env imgs_path (put_sample img_path sample' dataset) (tr @ effs))
      | None \<Rightarrow>
          unattached_loop env imgs_path (dataset @ [generate_sgcc_sample env img_path])
            (tr @ [AddSample img_path]))"

text \<open>Lines 219 to 233: one sample of the dataset or view that was passed in.\<close>

definition attached_member :: "'n env \<Rightarrow> 'n sample \<Rightarrow> 'n sample \<times> 'n effect list" where
  "attached_member env sample =
     (let xml_path = splitext_root (filepath sample) @ ''.xml'' in
      if \<not> path_exists env xml_path then (clear_field sample ''ground_truth'', [])
      else
        (let xml_md5 = md5sum env xml_path in
         if has_field sample ''xml_md5'' then
           (if get_field sample ''xml_md5'' \<noteq> Inr (PStr xml_md5) then
              (case parse_sample_info env (filepath sample) of
                 (img_meta, label_info, anno_dict) \<Rightarrow>
                   (update_fields (update_fields sample anno_dict)
                      [(''metadata'', img_meta), (''ground_truth'', label_info),
                       (''xml_md5'', PStr xml_md5)],
                    [Md5sum xml_path, ParseSampleInfo (filepath sample)]))
            else (sample, [Md5sum xml_path]))
         else (sample, [Md5sum xml_path])))"

text \<open>
  Line 218: \<^verbatim>\<open>dataset.iter_samples(progress=True, autosave=True, batch_size=0.2)\<close>. The
  iterator saves every sample it has yielded when the loop asks for the next one, also
  after \<^verbatim>\<open>continue\<close>.
\<close>

fun attached_loop :: "'n env \<Rightarrow> 'n dataset \<Rightarrow> 'n dataset \<times> 'n effect list" where
  "attached_loop env [] = ([], [])"
| "attached_loop env (sample # samples) =
     (case attached_member env sample of
        (sample', effs) \<Rightarrow>
          (case attached_loop env samples of
             (samples', effs') \<Rightarrow>
               (sample' # samples', effs @ [Autosave (filepath sample')] @ effs')))"

definition image_filter :: "string list" where
  "image_filter =
     [''.jpg'', ''.JPG'', ''.png'', ''.PNG'', ''.bmp'', ''.BMP'', ''.jpeg'', ''.JPEG'']"

text \<open>Lines 234 to 236, the end of \<^verbatim>\<open>update_dataset\<close>.\<close>

definition refresh_session :: "'n world \<Rightarrow> 'n world" where
  "refresh_session w =
     (case cache_session w of
        None \<Rightarrow> w
      | Some session \<Rightarrow> w\<lparr>trace := trace w @ [SessionRefresh]\<rparr>)"

text \<open>
  \<^verbatim>\<open>update_dataset(dataset=None)\<close>. Without an argument the cached dataset is updated in
  the world. A dataset or view that is passed in is held as a value of its own and is
  returned updated; the model does not say which samples it shares with the cached
  dataset. \<^verbatim>\<open>dataset.first()\<close> raises on an empty dataset.
\<close>

definition update_dataset ::
  "'n env \<Rightarrow> 'n dataset option \<Rightarrow> 'n world \<Rightarrow> error + ('n world \<times> 'n dataset option)" where
  "update_dataset env dataset w =
     (case dataset of
        None \<Rightarrow>
          (case cache_dataset w of
             None \<Rightarrow> Inr (w\<lparr>trace := trace w @ [Warning ''no dataset in cache,do no thing'']\<rparr>, None)
           | Some ds \<Rightarrow>
               (case ds of
                  [] \<Rightarrow> Inl ValueError
                | first_sample # _ \<Rightarrow>
                    (let dataset_dir = split_head (filepath first_sample);
                         imgs_path = get_all_file_path env dataset_dir (Some image_filter)
                     in case unattached_loop env imgs_path ds (trace w) of
                          (ds', tr) \<Rightarrow>
                            Inr (refresh_session
                                   (w\<lparr>cache_dataset := Some ds', trace := tr @ [DatasetSave]\<rparr>),
                                 None))))
      | Some ds \<Rightarrow>
          (case attached_loop env ds of
             (ds', effs) \<Rightarrow> Inr (refresh_session (w\<lparr>trace := trace w @ effs\<rparr>), Some ds')))"


section \<open>Exporting a dataset\<close>

text \<open>
  \<^verbatim>\<open>export_anno_file\<close> and \<^verbatim>\<open>export_sample\<close> hand one task for every sample to a pool
  of 48 threads. Leaving the pool waits for every task, so every task runs to its end,
  also when collecting the results raises. The order of the writes and the error that
  is seen first depend on the scheduling: the model lists the effects in the order of
  the dataset and reports the first error in that order.
\<close>

definition first_error :: "error option list \<Rightarrow> error option" where
  "first_error results = (case List.map_filter id results of [] \<Rightarrow> None | e # _ \<Rightarrow> Some e)"

text \<open>One task of \<^verbatim>\<open>export_anno_file\<close>: the effects of the task and its exception, if any.\<close>

definition anno_task :: "('n::{zero,plus}) sample \<Rightarrow> string \<Rightarrow> 'n effect list \<times> error option" where
  "anno_task sample save_dir =
     (case export_one_sample_anno sample save_dir of
        Inl e \<Rightarrow> ([], Some e)
      | Inr ((save_path, doc), r) \<Rightarrow> ([WriteFile save_path doc], None))"

text \<open>
  \<^verbatim>\<open>export_anno_file(save_dir, dataset=None)\<close> of \<^verbatim>\<open>exporter.py\<close>, the one that the
  package exports: the world after the call and the exception raised, if any.
\<close>

definition export_anno_file ::
  "('n::{zero,plus}) env \<Rightarrow> string \<Rightarrow> 'n dataset option \<Rightarrow> 'n world \<Rightarrow> 'n world \<times> error option" where
  "export_anno_file env save_dir dataset w =
     (case (case dataset of None \<Rightarrow> cache_dataset w | Some ds \<Rightarrow> Some ds) of
        None \<Rightarrow> (w\<lparr>trace := trace w @ [Warning ''no dataset in cache,no thing export'']\<rparr>, None)
      | Some ds \<Rightarrow>
          (let mk = (if \<not> path_exists env save_dir then [Mkdir save_dir] else []);
               tasks = map (\<lambda>sample. anno_task sample save_dir) ds
           in (w\<lparr>trace := trace w @ mk @ concat (map fst tasks)\<rparr>,
               first_error (map snd tasks))))"

text \<open>
  \<^verbatim>\<open>_export_one_sample(sample, exporter, get_anno, save_dir)\<close>. \<^verbatim>\<open>sample.metadata\<close> is
  \<^verbatim>\<open>None\<close> when the sample has no metadata; the metadata that \<^verbatim>\<open>build_for\<close> makes is
  passed to the exporter and not stored on the sample.
\<close>

definition export_one_sample ::
  "('n::{zero,plus}) env \<Rightarrow> 'n sample \<Rightarrow> bool \<Rightarrow> string \<Rightarrow> 'n effect list \<times> error option" where
  "export_one_sample env sample get_anno save_dir =
     (let image_path = filepath sample;
          metadata = get_sample_field sample ''metadata'' PNone;
          build = requires_image_metadata env \<and> metadata = PNone;
          metadata = (if build then build_for env image_path else metadata);
          effs = (if build then [BuildFor image_path] else [])
      in case get_field sample ''ground_truth'' of
           Inl e \<Rightarrow> (effs, Some e)
         | Inr label_value \<Rightarrow>
             (let effs = effs @ [ExportSample image_path label_value metadata]
              in if get_anno
                 then (case export_one_sample_anno sample save_dir of
                         Inl e \<Rightarrow> (effs, Some e)
                       | Inr ((save_path, doc), r) \<Rightarrow> (effs @ [WriteFile save_path doc], None))
                 else (effs, None)))"

text \<open>\<^verbatim>\<open>export_sample(save_dir, dataset=None, get_anno=True, **kwargs)\<close> of \<^verbatim>\<open>exporter.py\<close>.\<close>

definition export_sample ::
  "('n::{zero,plus}) env \<Rightarrow> string \<Rightarrow> 'n dataset option \<Rightarrow> bool \<Rightarrow> (string \<times> 'n pyval) list
    \<Rightarrow> 'n world \<Rightarrow> 'n world \<times> error option" where
  "export_sample env save_dir dataset get_anno kwargs w =
     (case (case dataset of None \<Rightarrow> cache_dataset w | Some ds \<Rightarrow> Some ds) of
        None \<Rightarrow> (w\<lparr>trace := trace w @ [Warning ''no dataset in cache,no thing export'']\<rparr>, None)
      | Some ds \<Rightarrow>
          (let mk = (if \<not> path_exists env save_dir then [Mkdir save_dir] else []);
               kwargs = AList.delete ''export_dir'' kwargs;
               tasks = map (\<lambda>sample. export_one_sample env sample get_anno save_dir) ds
           in (w\<lparr>trace := trace w @ mk @ [ExporterOpen save_dir kwargs, LogCollection]
                            @ concat (map fst tasks) @ [ExporterClose]\<rparr>,
               first_error (map snd tasks))))"

section \<open>The selected view\<close>

text \<open>
  The view that \<^verbatim>\<open>get_select_dv\<close> returns is kept as the query made on the dataset:
  \<^verbatim>\<open>dataset.select_by(field, values)\<close> or \<^verbatim>\<open>dataset.select(ids)\<close>.
\<close>

datatype 'n dataset_view =
    Select_by string "string list" "'n dataset"
  | Select "string list" "'n dataset"

text \<open>
  \<^verbatim>\<open>get_select_dv(txt_path=None)\<close>. In \<^verbatim>\<open>if dataset and session\<close> a dataset is true when
  it has a sample, and a session object is true.
\<close>

definition get_select_dv :: "'n env \<Rightarrow> string option \<Rightarrow> 'n world \<Rightarrow> 'n dataset_view option" where
  "get_select_dv env txt_path w =
     (case cache_dataset w of
        None \<Rightarrow> None
      | Some dataset \<Rightarrow>
          (case cache_session w of
             None \<Rightarrow> None
           | Some session \<Rightarrow>
               if dataset \<noteq> [] then
                 (case txt_path of
                    Some p \<Rightarrow>
                      if path_exists env p
                      then Some (Select_by ''filepath'' (get_all_file_path env p None) dataset)
                      else None
                  | None \<Rightarrow> Some (Select (selected session) dataset))
               else None))"


section \<open>Reading a written document, and example inputs\<close>

text \<open>The member of a JSON object under a key, \<open>None\<close> when the key is absent.\<close>

definition json_member :: "string \<Rightarrow> 'n json \<Rightarrow> 'n json option" where
  "json_member k doc = (case doc of JObj kvs \<Rightarrow> map_of kvs k | _ \<Rightarrow> None)"

text \<open>
  A sample with one detection, a tag, an empty data source and a cached checksum, and
  the document that the serializer writes for it.
\<close>

definition det_cat :: "real detection" where
  "det_cat = \<lparr>label = ''cat'', bounding_box = [1 / 4, 1 / 4, 1 / 2, 1 / 2],
              confidence = Some (9 / 10)\<rparr>"

definition sample_cat :: "real sample" where
  "sample_cat =
     \<lparr>filepath = ''/data/a.jpg'',
      sample_fields =
        [(''metadata'', PMeta 480 640 3), (''ground_truth'', PDets [det_cat]),
         (''tags'', PList [PStr ''train'']), (''data_source'', PStr ''''),
         (''xml_md5'', PStr ''abc'')]\<rparr>"

definition doc_cat :: "real json" where
  "doc_cat =
     JObj
       [(''chiebot_sample_tags'', JArr []),
        (''img_shape'', JArr [JInt 480, JInt 640, JInt 3]),
        (''objs_info'',
         JArr
           [JObj
              [(''bbox'', JArr [JFloat (1 / 4), JFloat (1 / 4), JFloat (3 / 4), JFloat (3 / 4)]),
               (''confidence'', JInt (- 1)), (''difficult'', JInt 0), (''mask'', JArr []),
               (''name'', JStr ''cat''), (''pose'', JStr ''Unspecified''),
               (''quality'', JInt 10), (''truncated'', JInt 0)]]),
        (''sample_tags'', JArr [JStr ''train''])]"

text \<open>
  A world for the updater. The disk holds the sidecars of \<open>a\<close>, \<open>b\<close>, \<open>d\<close> and \<open>e\<close> and
  the five images \<open>a\<close> to \<open>e\<close>; every sidecar has the checksum \<open>new\<close>. The cached
  dataset holds \<open>a\<close> with a stale checksum, \<open>b\<close> with the current one, \<open>c\<close> whose
  sidecar is gone, and \<open>d\<close> that has a sidecar and no checksum field.
\<close>

definition sample_same :: "real sample" where
  "sample_same =
     \<lparr>filepath = ''/data/b.jpg'',
      sample_fields =
        [(''metadata'', PMeta 480 640 3), (''ground_truth'', PDets [det_cat]),
         (''xml_md5'', PStr ''new'')]\<rparr>"

definition sample_gone :: "real sample" where
  "sample_gone =
     \<lparr>filepath = ''/data/c.jpg'',
      sample_fields =
        [(''metadata'', PMeta 480 640 3), (''ground_truth'', PDets [det_cat]),
         (''xml_md5'', PStr ''old'')]\<rparr>"

definition sample_nosum :: "real sample" where
  "sample_nosum =
     \<lparr>filepath = ''/data/d.jpg'',
      sample_fields = [(''metadata'', PMeta 480 640 3), (''ground_truth'', PNone)]\<rparr>"

definition env_ex :: "real env" where
  "env_ex =
     \<lparr>path_exists = (\<lambda>p. p \<in> set [''/data/a.xml'', ''/data/b.xml'', ''/data/d.xml'', ''/data/e.xml'']),
      md5sum = (\<lambda>p. ''new''),
      get_all_file_path = (\<lambda>d f. if d = ''/data''
         then [''/data/a.jpg'', ''/data/b.jpg'', ''/data/c.jpg'', ''/data/d.jpg'', ''/data/e.jpg'']
         else []),
      parse_sample_info = (\<lambda>p. (PMeta 10 20 3, PDets [], [(''data_source'', PStr ''cam'')])),
      generate_sgcc_sample = (\<lambda>p.
         \<lparr>filepath = p,
          sample_fields = [(''metadata'', PMeta 10 20 3), (''ground_truth'', PDets []),
                           (''xml_md5'', PStr ''new'')]\<rparr>),
      requires_image_metadata = False,
      build_for = (\<lambda>p. PMeta 1 1 3)\<rparr>"

definition dataset_ex :: "real dataset" where
  "dataset_ex = [sample_cat, sample_same, sample_gone, sample_nosum]"

definition world_ex :: "real world" where
  "world_ex = \<lparr>cache_dataset = Some dataset_ex, cache_session = Some \<lparr>selected = []\<rparr>, trace = []\<rparr>"

text \<open>The samples and the worlds after the update without and with a dataset argument.\<close>

definition sample_cat_reparsed :: "real sample" where
  "sample_cat_reparsed =
     \<lparr>filepath = ''/data/a.jpg'',
      sample_fields =
        [(''metadata'', PMeta 10 20 3), (''ground_truth'', PDets []),
         (''tags'', PList [PStr ''train'']), (''data_source'', PStr ''cam''),
         (''xml_md5'', PStr ''new'')]\<rparr>"

definition sample_gone_cleared :: "real sample" where
  "sample_gone_cleared =
     \<lparr>filepath = ''/data/c.jpg'',
      sample_fields =
        [(''metadata'', PMeta 480 640 3), (''ground_truth'', PNone),
         (''xml_md5'', PStr ''old'')]\<rparr>"

definition sample_new :: "real sample" where
  "sample_new =
     \<lparr>filepath = ''/data/e.jpg'',
      sample_fields =
        [(''metadata'', PMeta 10 20 3), (''ground_truth'', PDets []),
         (''xml_md5'', PStr ''new'')]\<rparr>"

definition world_unattached_ex :: "real world" where
  "world_unattached_ex =
     \<lparr>cache_dataset =
        Some [sample_cat_reparsed, sample_same, sample_gone_cleared, sample_nosum, sample_new],
      cache_session = Some \<lparr>selected = []\<rparr>,
      trace =
        [Md5sum ''/data/a.xml'', ParseSampleInfo ''/data/a.jpg'', ContextSave ''/data/a.jpg'',
         Md5sum ''/data/b.xml'', ContextSave ''/data/b.jpg'', Md5sum ''/data/d.xml'',
         AddSample ''/data/e.jpg'', DatasetSave, SessionRefresh]\<rparr>"

definition world_attached_ex :: "real world" where
  "world_attached_ex =
     \<lparr>cache_dataset = Some dataset_ex,
      cache_session = Some \<lparr>selected = []\<rparr>,
      trace =
        [Md5sum ''/data/a.xml'', ParseSampleInfo ''/data/a.jpg'', Autosave ''/data/a.jpg'',
         Md5sum ''/data/b.xml'', Autosave ''/data/b.jpg'', Autosave ''/data/c.jpg'',
         Md5sum ''/data/d.xml'', Autosave ''/data/d.jpg'', SessionRefresh]\<rparr>"

text \<open>A world without a cached dataset.\<close>

definition world_none :: "real world" where
  "world_none = \<lparr>cache_dataset = None, cache_session = Some \<lparr>selected = []\<rparr>, trace = []\<rparr>"

section \<open>Properties of the annotation serializer\<close>

subsection \<open>Auxiliary facts\<close>

lemma export_objs_acc:
  "export_objs dets acc = Inr objs \<Longrightarrow>
     \<exists>os. objs = acc @ os \<and> list_all2 (\<lambda>det obj. export_obj det = Inr obj) dets os"
proof (induction dets arbitrary: acc)
  case Nil
  then show ?case by simp
next
  case (Cons det dets)
  then obtain obj where o: "export_obj det = Inr obj"
    and r: "export_objs dets (acc @ [obj]) = Inr objs"
    by (auto split: sum.splits)
  from Cons.IH [OF r] obtain os' where "objs = (acc @ [obj]) @ os'"
    and "list_all2 (\<lambda>det obj. export_obj det = Inr obj) dets os'" by blast
  with o show ?case by auto
qed

lemma to_json_list_all2:
  "to_json_list vs = Inr js \<Longrightarrow> list_all2 (\<lambda>v j. to_json v = Inr j) vs js"
  by (induction vs arbitrary: js) (auto split: sum.splits)

lemma to_json_items_keys:
  "to_json_items kvs = Inr js \<Longrightarrow> map fst js = map fst kvs"
  by (induction kvs arbitrary: js) (auto split: sum.splits)

lemma to_json_items_lookup:
  "to_json_items kvs = Inr js \<Longrightarrow> map_of kvs k = Some v \<Longrightarrow>
     \<exists>j. to_json v = Inr j \<and> map_of js k = Some j"
  by (induction kvs arbitrary: js) (auto split: sum.splits if_splits)

lemma map_of_sort_key:
  "distinct (map fst js) \<Longrightarrow> map_of (sort_key fst js) = map_of js"
  by (rule map_of_inject_set [THEN iffD2]) (auto simp: distinct_map)

lemma to_json_obj:
  "export_obj det = Inr obj \<Longrightarrow> to_json obj = Inr j \<Longrightarrow>
   \<exists>x y w h rest. bounding_box det = x # y # w # h # rest \<and>
     j = JObj [(''bbox'', JArr [JFloat x, JFloat y, JFloat (x + w), JFloat (y + h)]),
               (''confidence'', JInt (- 1)), (''difficult'', JInt 0), (''mask'', JArr []),
               (''name'', JStr (label det)), (''pose'', JStr ''Unspecified''),
               (''quality'', JInt 10), (''truncated'', JInt 0)]"
  by (auto simp: export_obj_def split: list.splits)


lemma export_fields_distinct:
  "distinct (map fst acc) \<Longrightarrow> distinct (map fst (export_fields s m acc))"
  by (induction s m acc rule: export_fields.induct) (auto simp: Let_def distinct_update)

lemma export_fields_other:
  "x \<notin> snd ` set m \<Longrightarrow> map_of (export_fields s m acc) x = map_of acc x"
  by (induction s m acc rule: export_fields.induct) (auto simp: Let_def update_conv')

lemma export_fields_lookup:
  "distinct (map snd m) \<Longrightarrow> (k, v) \<in> set m \<Longrightarrow>
   map_of (export_fields s m acc) v =
     (if truthy (get_sample_field s k PNone) then Some (get_sample_field s k PNone)
      else map_of acc v)"
proof (induction s m acc rule: export_fields.induct)
  case (1 s result)
  then show ?case by simp
next
  case (2 s k' v' kvs result)
  show ?case
  proof (cases "(k, v) = (k', v')")
    case True
    with "2.prems" have "v \<notin> snd ` set kvs" by auto
    with True show ?thesis
      by (simp add: Let_def export_fields_other update_conv')
  next
    case False
    with "2.prems" have mem: "(k, v) \<in> set kvs" and ne: "v \<noteq> v'" and d: "distinct (map snd kvs)"
      by (auto simp: image_iff)
    from "2.IH" [OF refl d mem] ne show ?thesis
      by (simp add: Let_def update_conv')
  qed
qed

lemma export_one_sample_anno_Inr:
  assumes "export_one_sample_anno s d = Inr ((path, doc), r)"
  obtains shape objs js where
    "img_shape s = Inr shape"
    "(if truthy (get_sample_field s ''ground_truth'' PNone)
      then (case get_sample_field s ''ground_truth'' PNone of PDets ds \<Rightarrow> export_objs ds []
            | _ \<Rightarrow> Inl AttributeError)
      else Inr []) = Inr objs"
    "to_json_items (AList.update ''objs_info'' (PList objs) (AList.update ''img_shape'' shape
        (AList.update ''chiebot_sample_tags'' (get_sample_field s ''chiebot_sample_tags'' (PList []))
          (export_fields s need_export_map [])))) = Inr js"
    "doc = JObj (sort_key fst js)"
    "path = path_join d (splitext_root (filename s) @ ''.anno'')"
    "r = None"
  using assms unfolding export_one_sample_anno_def Let_def
  by (auto split: sum.splits)

lemma to_json_items_lookup_None:
  "to_json_items kvs = Inr js \<Longrightarrow> map_of kvs k = None \<Longrightarrow> map_of js k = None"
  using to_json_items_keys [of kvs js] by (simp add: map_of_eq_None_iff flip: set_map)

lemma truthy_to_json_nonempty:
  "truthy v \<Longrightarrow> to_json v = Inr j \<Longrightarrow> j \<notin> {JNull, JStr [], JArr [], JObj []}"
  by (cases v) (auto split: sum.splits list.splits simp: neq_Nil_conv)

lemma export_fields_export_py: "export_fields_export_py s m acc = export_fields s m acc"
  by (induction s m acc rule: export_fields.induct) (simp_all add: Let_def)

lemma export_obj_export_py: "export_obj_export_py det = export_obj det"
  by (simp add: export_obj_export_py_def export_obj_def)

lemma export_objs_export_py: "export_objs_export_py dets acc = export_objs dets acc"
  by (induction dets arbitrary: acc) (simp_all add: export_obj_export_py split: sum.splits)

lemma img_shape_export_py: "img_shape_export_py s = img_shape s"
  by (simp add: img_shape_export_py_def img_shape_def)

lemma need_export_map_export_py: "need_export_map_export_py = need_export_map"
  by (simp add: need_export_map_export_py_def need_export_map_def)

lemma export_sample_cat:
  "export_one_sample_anno sample_cat ''/out'' = Inr ((''/out/a.anno'', doc_cat), None)"
  by (simp add: sample_cat_def det_cat_def doc_cat_def export_one_sample_anno_def
      need_export_map_def get_sample_field_def img_shape_def get_field_def export_obj_def
      path_join_def splitext_root_def filename_def basename_def Let_def)

text \<open>
  The serializer writes its file when the sample has metadata, every detection box has
  its four coordinates, and the values it copies are serialisable.
\<close>

lemma to_json_list_total:
  "\<forall>v \<in> set vs. \<exists>j. to_json v = Inr j \<Longrightarrow> \<exists>js. to_json_list vs = Inr js"
  by (induction vs) auto

lemma to_json_items_total:
  "\<forall>kv \<in> set kvs. \<exists>j. to_json (snd kv) = Inr j \<Longrightarrow> \<exists>js. to_json_items kvs = Inr js"
  by (induction kvs) auto

lemma set_update_subset: "set (AList.update k v al) \<subseteq> insert (k, v) (set al)"
  by (induction al) auto

lemma export_fields_values:
  "\<forall>kv \<in> set acc. \<exists>j. to_json (snd kv) = Inr j \<Longrightarrow>
   \<forall>k \<in> fst ` set m. \<exists>j. to_json (get_sample_field s k PNone) = Inr j \<Longrightarrow>
   \<forall>kv \<in> set (export_fields s m acc). \<exists>j. to_json (snd kv) = Inr j"
proof (induction s m acc rule: export_fields.induct)
  case (1 s result)
  then show ?case by simp
next
  case (2 s k v kvs result)
  let ?vv = "get_sample_field s k PNone"
  let ?r = "if truthy ?vv then AList.update v ?vv result else result"
  have "\<forall>kv \<in> set ?r. \<exists>j. to_json (snd kv) = Inr j"
    using "2.prems" set_update_subset [of v ?vv result] by (auto split: if_splits)
  with "2.IH" [OF refl] "2.prems"(2) show ?case by (simp add: Let_def)
qed

lemma export_objs_total:
  "\<forall>det \<in> set dets. 4 \<le> length (bounding_box det) \<Longrightarrow>
   \<forall>v \<in> set acc. \<exists>j. to_json v = Inr j \<Longrightarrow>
   \<exists>objs. export_objs dets acc = Inr objs \<and> (\<forall>v \<in> set objs. \<exists>j. to_json v = Inr j)"
proof (induction dets arbitrary: acc)
  case Nil
  then show ?case by simp
next
  case (Cons det dets)
  from Cons.prems(1) have "4 \<le> length (bounding_box det)" by simp
  then obtain x y w h rest where bb: "bounding_box det = x # y # w # h # rest"
    by (auto simp: numeral_eq_Suc Suc_le_length_iff)
  then obtain obj where o: "export_obj det = Inr obj" "\<exists>j. to_json obj = Inr j"
    by (simp add: export_obj_def)
  with Cons.prems have "\<forall>v \<in> set (acc @ [obj]). \<exists>j. to_json v = Inr j" by auto
  from Cons.IH [OF _ this] Cons.prems(1) o show ?case by simp
qed


lemma export_one_sample_anno_writes:
  assumes meta: "get_field s ''metadata'' = Inr (PMeta h w c)"
    and gt: "get_sample_field s ''ground_truth'' PNone = PDets dets"
    and boxes: "\<forall>det \<in> set dets. 4 \<le> length (bounding_box det)"
    and ser: "\<forall>k \<in> fst ` set need_export_map.
                \<exists>j. to_json (get_sample_field s k PNone) = Inr j"
    and tags: "\<exists>j. to_json (get_sample_field s ''chiebot_sample_tags'' (PList [])) = Inr j"
  shows "\<exists>doc. export_one_sample_anno s save_dir =
           Inr ((path_join save_dir (splitext_root (filename s) @ ''.anno''), doc), None)"
proof -
  let ?shape = "PTuple [PInt h, PInt w, PInt c]"
  have sh: "img_shape s = Inr ?shape" using meta by (simp add: img_shape_def)
  from export_objs_total [OF boxes, of "[]"] obtain objs where
    objs: "export_objs dets [] = Inr objs" "\<forall>v \<in> set objs. \<exists>j. to_json v = Inr j" by auto
  from to_json_list_total [OF objs(2)] have ol: "\<exists>j. to_json (PList objs) = Inr j" by auto
  have f: "\<forall>kv \<in> set (export_fields s need_export_map []). \<exists>j. to_json (snd kv) = Inr j"
    using ser by (intro export_fields_values) simp_all
  let ?result = "AList.update ''objs_info'' (PList objs) (AList.update ''img_shape'' ?shape
        (AList.update ''chiebot_sample_tags'' (get_sample_field s ''chiebot_sample_tags'' (PList []))
          (export_fields s need_export_map [])))"
  have "\<forall>kv \<in> set ?result. \<exists>j. to_json (snd kv) = Inr j"
  proof
    fix kv assume "kv \<in> set ?result"
    then have "kv = (''objs_info'', PList objs) \<or> kv = (''img_shape'', ?shape) \<or>
        kv = (''chiebot_sample_tags'', get_sample_field s ''chiebot_sample_tags'' (PList [])) \<or>
        kv \<in> set (export_fields s need_export_map [])"
      using set_update_subset [of "''objs_info''" "PList objs"]
        set_update_subset [of "''img_shape''" ?shape]
        set_update_subset [of "''chiebot_sample_tags''"
          "get_sample_field s ''chiebot_sample_tags'' (PList [])"
          "export_fields s need_export_map []"]
      by blast
    with ol tags f show "\<exists>j. to_json (snd kv) = Inr j" by auto
  qed
  from to_json_items_total [OF this] obtain js where "to_json_items ?result = Inr js" ..
  with sh objs(1) gt show ?thesis
    by (simp add: export_one_sample_anno_def Let_def)
qed

subsection \<open>The object records\<close>

text \<open>
  Claim C2. When the sample's \<open>ground_truth\<close> field is a detection list of length k
  and the serializer writes its file, the document's \<open>objs_info\<close> is an array of
  exactly k object records; the record at index i has the bbox (x, y, x+w, y+h) of
  the i-th detection's box (x, y, w, h), the detection's label as its name, and the
  fixed pose "Unspecified", truncated 0, difficult 0, empty mask, confidence -1 and
  quality 10, whatever the detection's own confidence is.
\<close>

theorem objs_info_of_detections:
  assumes gt: "get_sample_field s ''ground_truth'' PNone = PDets dets"
    and ex: "export_one_sample_anno s save_dir = Inr ((path, doc), r)"
  shows "\<exists>objs. json_member ''objs_info'' doc = Some (JArr objs) \<and>
           length objs = length dets \<and>
           (\<forall>i < length dets. \<exists>x y w h rest.
              bounding_box (dets ! i) = x # y # w # h # rest \<and>
              objs ! i =
                JObj [(''bbox'', JArr [JFloat x, JFloat y, JFloat (x + w), JFloat (y + h)]),
                      (''confidence'', JInt (- 1)), (''difficult'', JInt 0),
                      (''mask'', JArr []), (''name'', JStr (label (dets ! i))),
                      (''pose'', JStr ''Unspecified''), (''quality'', JInt 10),
                      (''truncated'', JInt 0)])"
proof -
  from ex obtain shape objs js where
    ob: "(if truthy (get_sample_field s ''ground_truth'' PNone)
      then (case get_sample_field s ''ground_truth'' PNone of PDets ds \<Rightarrow> export_objs ds []
            | _ \<Rightarrow> Inl AttributeError)
      else Inr []) = Inr objs"
    and js: "to_json_items (AList.update ''objs_info'' (PList objs) (AList.update ''img_shape'' shape
        (AList.update ''chiebot_sample_tags'' (get_sample_field s ''chiebot_sample_tags'' (PList []))
          (export_fields s need_export_map [])))) = Inr js"
    and doc: "doc = JObj (sort_key fst js)"
    by (rule export_one_sample_anno_Inr)
  from ob gt have eo: "export_objs dets [] = Inr objs" by simp
  from export_objs_acc [OF eo]
  have a2: "list_all2 (\<lambda>det obj. export_obj det = Inr obj) dets objs" by simp
  have dist: "distinct (map fst js)"
    using to_json_items_keys [OF js] by (simp add: distinct_update export_fields_distinct)
  have "map_of (AList.update ''objs_info'' (PList objs) (AList.update ''img_shape'' shape
        (AList.update ''chiebot_sample_tags'' (get_sample_field s ''chiebot_sample_tags'' (PList []))
          (export_fields s need_export_map [])))) ''objs_info'' = Some (PList objs)"
    by (simp add: update_conv')
  from to_json_items_lookup [OF js this] obtain j where
    j: "to_json (PList objs) = Inr j" and mj: "map_of js ''objs_info'' = Some j" by blast
  from j obtain jobjs where jl: "to_json_list objs = Inr jobjs" and jj: "j = JArr jobjs"
    by (auto split: sum.splits)
  from to_json_list_all2 [OF jl] have b2: "list_all2 (\<lambda>v j. to_json v = Inr j) objs jobjs" .
  have mem: "json_member ''objs_info'' doc = Some (JArr jobjs)"
    using doc mj jj dist by (simp add: json_member_def map_of_sort_key)
  have len: "length jobjs = length dets"
    using a2 b2 by (simp add: list_all2_lengthD)
  have "\<exists>x y w h rest.
              bounding_box (dets ! i) = x # y # w # h # rest \<and>
              jobjs ! i =
                JObj [(''bbox'', JArr [JFloat x, JFloat y, JFloat (x + w), JFloat (y + h)]),
                      (''confidence'', JInt (- 1)), (''difficult'', JInt 0),
                      (''mask'', JArr []), (''name'', JStr (label (dets ! i))),
                      (''pose'', JStr ''Unspecified''), (''quality'', JInt 10),
                      (''truncated'', JInt 0)]" if i: "i < length dets" for i
  proof -
    from a2 i have "export_obj (dets ! i) = Inr (objs ! i)" by (rule list_all2_nthD)
    moreover from a2 i have "i < length objs" by (simp add: list_all2_lengthD)
    with b2 have "to_json (objs ! i) = Inr (jobjs ! i)" by (rule list_all2_nthD)
    ultimately show ?thesis by (rule to_json_obj)
  qed
  with mem len show ?thesis by blast
qed

theorem objs_info_of_detections_witness:
  "get_sample_field sample_cat ''ground_truth'' PNone = PDets [det_cat] \<and>
   export_one_sample_anno sample_cat ''/out'' = Inr ((''/out/a.anno'', doc_cat), None) \<and>
   bounding_box det_cat = [1 / 4, 1 / 4, 1 / 2, 1 / 2] \<and>
   confidence det_cat = Some (9 / 10) \<and>
   (\<exists>objs. json_member ''objs_info'' doc_cat = Some (JArr objs) \<and>
      length objs = 1 \<and>
      objs ! 0 =
        JObj [(''bbox'', JArr [JFloat (1 / 4), JFloat (1 / 4), JFloat (3 / 4), JFloat (3 / 4)]),
              (''confidence'', JInt (- 1)), (''difficult'', JInt 0),
              (''mask'', JArr []), (''name'', JStr ''cat''),
              (''pose'', JStr ''Unspecified''), (''quality'', JInt 10),
              (''truncated'', JInt 0)])"
proof -
  have h1: "get_sample_field sample_cat ''ground_truth'' PNone = PDets [det_cat]"
    by (simp add: get_sample_field_def sample_cat_def)
  note h2 = export_sample_cat
  have d: "bounding_box det_cat = [1 / 4, 1 / 4, 1 / 2, 1 / 2]" "confidence det_cat = Some (9 / 10)"
    "label det_cat = ''cat''"
    by (simp_all add: det_cat_def)
  from objs_info_of_detections [OF h1 h2] obtain objs where
    o: "json_member ''objs_info'' doc_cat = Some (JArr objs)" "length objs = length [det_cat]"
    and e: "\<forall>i < length [det_cat]. \<exists>x y w h rest.
         bounding_box ([det_cat] ! i) = x # y # w # h # rest \<and>
         objs ! i =
           JObj [(''bbox'', JArr [JFloat x, JFloat y, JFloat (x + w), JFloat (y + h)]),
                 (''confidence'', JInt (- 1)), (''difficult'', JInt 0),
                 (''mask'', JArr []), (''name'', JStr (label ([det_cat] ! i))),
                 (''pose'', JStr ''Unspecified''), (''quality'', JInt 10),
                 (''truncated'', JInt 0)]"
    by blast
  from e have "objs ! 0 =
        JObj [(''bbox'', JArr [JFloat (1 / 4), JFloat (1 / 4), JFloat (3 / 4), JFloat (3 / 4)]),
              (''confidence'', JInt (- 1)), (''difficult'', JInt 0),
              (''mask'', JArr []), (''name'', JStr ''cat''),
              (''pose'', JStr ''Unspecified''), (''quality'', JInt 10),
              (''truncated'', JInt 0)]"
    by (auto simp: d)
  with o h1 h2 d show ?thesis by auto
qed

subsection \<open>The optional fields\<close>

text \<open>
  Claim C7. For each of the five optional fields (data source, image quality,
  additions, sample tags, external ID) and every sample whose file the serializer
  writes: when the field has a true value on the sample, the renamed key is in the
  written document with that value, which is not null and not empty; when the field is
  missing or its value is false, the key is absent from the document.
\<close>

theorem optional_field_written_iff_truthy:
  assumes ex: "export_one_sample_anno s save_dir = Inr ((path, doc), r)"
    and kv: "(k, v) \<in> set need_export_map"
  shows "(truthy (get_sample_field s k PNone) \<longrightarrow>
            (\<exists>j. to_json (get_sample_field s k PNone) = Inr j \<and> json_member v doc = Some j \<and>
                 j \<notin> {JNull, JStr [], JArr [], JObj []})) \<and>
         (\<not> truthy (get_sample_field s k PNone) \<longrightarrow> json_member v doc = None)"
proof -
  from ex obtain shape objs js where
    js: "to_json_items (AList.update ''objs_info'' (PList objs) (AList.update ''img_shape'' shape
        (AList.update ''chiebot_sample_tags'' (get_sample_field s ''chiebot_sample_tags'' (PList []))
          (export_fields s need_export_map [])))) = Inr js"
    and doc: "doc = JObj (sort_key fst js)"
    by (rule export_one_sample_anno_Inr)
  have dist: "distinct (map fst js)"
    using to_json_items_keys [OF js] by (simp add: distinct_update export_fields_distinct)
  have mem: "json_member v doc = map_of js v"
    using doc dist by (simp add: json_member_def map_of_sort_key)
  from kv have ne: "v \<noteq> ''objs_info''" "v \<noteq> ''img_shape''" "v \<noteq> ''chiebot_sample_tags''"
    by (auto simp: need_export_map_def)
  have "distinct (map snd need_export_map)" by (simp add: need_export_map_def)
  from export_fields_lookup [OF this kv, of s "[]"]
  have look: "map_of (AList.update ''objs_info'' (PList objs) (AList.update ''img_shape'' shape
        (AList.update ''chiebot_sample_tags'' (get_sample_field s ''chiebot_sample_tags'' (PList []))
          (export_fields s need_export_map [])))) v =
     (if truthy (get_sample_field s k PNone) then Some (get_sample_field s k PNone) else None)"
    using ne by (simp add: update_conv')
  show ?thesis
  proof (cases "truthy (get_sample_field s k PNone)")
    case True
    with look to_json_items_lookup [OF js] obtain j where
      j: "to_json (get_sample_field s k PNone) = Inr j" "map_of js v = Some j" by auto
    with True mem truthy_to_json_nonempty [OF True j(1)] show ?thesis by simp
  next
    case False
    with look to_json_items_lookup_None [OF js] mem show ?thesis by simp
  qed
qed

theorem optional_field_written_iff_truthy_witness:
  "export_one_sample_anno sample_cat ''/out'' = Inr ((''/out/a.anno'', doc_cat), None) \<and>
   (''tags'', ''sample_tags'') \<in> set need_export_map \<and>
   truthy (get_sample_field sample_cat ''tags'' PNone) \<and>
   json_member ''sample_tags'' doc_cat = Some (JArr [JStr ''train'']) \<and>
   (''data_source'', ''data_source'') \<in> set need_export_map \<and>
   \<not> truthy (get_sample_field sample_cat ''data_source'' PNone) \<and>
   json_member ''data_source'' doc_cat = None"
proof -
  note h1 = export_sample_cat
  have h2: "(''tags'', ''sample_tags'') \<in> set need_export_map"
    and h3: "(''data_source'', ''data_source'') \<in> set need_export_map"
    by (simp_all add: need_export_map_def)
  have t: "get_sample_field sample_cat ''tags'' PNone = PList [PStr ''train'']"
    and f: "get_sample_field sample_cat ''data_source'' PNone = PStr ''''"
    by (simp_all add: get_sample_field_def sample_cat_def)
  from optional_field_written_iff_truthy [OF h1 h2] optional_field_written_iff_truthy [OF h1 h3]
    h1 h2 h3 t f
  show ?thesis by simp
qed

subsection \<open>The two copies of the serializer\<close>

text \<open>
  Claim C10. For every sample and destination directory, the copy of
  \<open>_export_one_sample_anno\<close> in export.py raises exactly when the copy in exporter.py
  raises, with the same error, and otherwise writes the same document to the same
  path; the export.py copy returns the written path and the exporter.py copy returns
  None.
\<close>

theorem export_py_same_write:
  "export_one_sample_anno_export_py s save_dir =
     (case export_one_sample_anno s save_dir of
        Inl e \<Rightarrow> Inl e
      | Inr (written, r) \<Rightarrow> Inr (written, Some (fst written))) \<and>
   (\<forall>written r. export_one_sample_anno s save_dir = Inr (written, r) \<longrightarrow> r = None)"
proof
  show "export_one_sample_anno_export_py s save_dir =
     (case export_one_sample_anno s save_dir of
        Inl e \<Rightarrow> Inl e
      | Inr (written, r) \<Rightarrow> Inr (written, Some (fst written)))"
    unfolding export_one_sample_anno_export_py_def export_one_sample_anno_def
      export_fields_export_py export_objs_export_py need_export_map_export_py
      img_shape_export_py Let_def
    by (simp split: sum.splits)
  show "\<forall>written r. export_one_sample_anno s save_dir = Inr (written, r) \<longrightarrow> r = None"
  proof (intro allI impI)
    fix written r
    assume "export_one_sample_anno s save_dir = Inr (written, r)"
    then have "export_one_sample_anno s save_dir = Inr ((fst written, snd written), r)" by simp
    then show "r = None" by (rule export_one_sample_anno_Inr)
  qed
qed

theorem export_py_same_write_witness:
  "export_one_sample_anno_export_py sample_cat ''/out'' =
     Inr ((''/out/a.anno'', doc_cat), Some ''/out/a.anno'') \<and>
   export_one_sample_anno sample_cat ''/out'' = Inr ((''/out/a.anno'', doc_cat), None)"
  using export_py_same_write [of sample_cat "''/out''"] export_sample_cat by simp

section \<open>Properties of the dataset updater\<close>

subsection \<open>Auxiliary facts\<close>

lemma filepath_set_field [simp]: "filepath (set_field s k v) = filepath s"
  by (simp add: set_field_def)

lemma filepath_update_fields [simp]: "filepath (update_fields s kvs) = filepath s"
  by (induction s kvs rule: update_fields.induct) simp_all

lemma filepath_clear_field [simp]: "filepath (clear_field s k) = filepath s"
  by (simp add: clear_field_def)

lemma filepath_unattached_member [simp]:
  "filepath (fst (unattached_member env s)) = filepath s"
  by (simp add: unattached_member_def Let_def split: prod.splits)

lemma filepath_attached_member [simp]:
  "filepath (fst (attached_member env s)) = filepath s"
  by (simp add: attached_member_def Let_def split: prod.splits)

lemma getitem_filepath: "getitem ds p = Some s \<Longrightarrow> filepath s = p"
  by (induction ds) (auto simp: getitem_def split: if_splits)

lemma getitem_None_iff: "getitem ds p = None \<longleftrightarrow> p \<notin> set (map filepath ds)"
  by (induction ds) (auto simp: getitem_def)

lemma getitem_put_sample_other:
  "q \<noteq> p \<Longrightarrow> filepath s' = q \<Longrightarrow> getitem (put_sample q s' ds) p = getitem ds p"
  by (induction ds) (auto simp: getitem_def)

lemma getitem_put_sample_same:
  "getitem ds p = Some s \<Longrightarrow> filepath s' = p \<Longrightarrow> getitem (put_sample p s' ds) p = Some s'"
  by (induction ds) (auto simp: getitem_def split: if_splits)

lemma getitem_append_Some: "getitem ds p = Some s \<Longrightarrow> getitem (ds @ [x]) p = Some s"
  by (induction ds) (auto simp: getitem_def split: if_splits)

lemma map_filepath_put_sample:
  "filepath s' = p \<Longrightarrow> map filepath (put_sample p s' ds) = map filepath ds"
  by (induction ds) auto

lemma unattached_loop_trace:
  "unattached_loop env imgs ds tr =
     (fst (unattached_loop env imgs ds []), tr @ snd (unattached_loop env imgs ds []))"
proof (induction imgs arbitrary: ds tr)
  case Nil
  then show ?case by simp
next
  case (Cons q imgs)
  show ?case
  proof (cases "getitem ds q")
    case None
    then show ?thesis
      using Cons.IH [of "ds @ [generate_sgcc_sample env q]" "tr @ [AddSample q]"]
        Cons.IH [of "ds @ [generate_sgcc_sample env q]" "[AddSample q]"]
      by simp
  next
    case (Some s)
    then show ?thesis
      using Cons.IH [of "put_sample q (fst (unattached_member env s)) ds"
                        "tr @ snd (unattached_member env s)"]
        Cons.IH [of "put_sample q (fst (unattached_member env s)) ds"
                        "snd (unattached_member env s)"]
      by (simp add: case_prod_beta)
  qed
qed

lemma unattached_loop_stable:
  assumes "getitem ds p = Some s" and "fst (unattached_member env s) = s"
  shows "getitem (fst (unattached_loop env imgs ds tr)) p = Some s"
  using assms
proof (induction imgs arbitrary: ds tr)
  case Nil
  then show ?case by simp
next
  case (Cons q imgs)
  show ?case
  proof (cases "getitem ds q")
    case None
    with Cons.prems Cons.IH [of "ds @ [generate_sgcc_sample env q]"] show ?thesis
      by (simp add: getitem_append_Some)
  next
    case (Some sq)
    have fq: "filepath sq = q" using Some by (rule getitem_filepath)
    have "getitem (put_sample q (fst (unattached_member env sq)) ds) p = Some s"
    proof (cases "q = p")
      case True
      with Some Cons.prems show ?thesis by (simp add: getitem_put_sample_same fq)
    next
      case False
      with Cons.prems show ?thesis by (simp add: getitem_put_sample_other fq)
    qed
    from Cons.IH [OF this Cons.prems(2)] Some show ?thesis
      by (simp add: case_prod_beta)
  qed
qed







lemma fst_attached_loop:
  "fst (attached_loop env ds) = map (\<lambda>s. fst (attached_member env s)) ds"
  by (induction ds) (simp_all add: case_prod_beta)





lemma add_sample_attached_loop: "AddSample q \<notin> set (snd (attached_loop env ds))"
  by (induction ds) (auto simp: case_prod_beta attached_member_def Let_def)


lemma cache_dataset_refresh_session [simp]:
  "cache_dataset (refresh_session w) = cache_dataset w"
  by (simp add: refresh_session_def split: option.splits)

lemma trace_refresh_session:
  "\<exists>r. trace (refresh_session w) = trace w @ r \<and> set r \<subseteq> {SessionRefresh}"
  by (cases "cache_session w") (simp_all add: refresh_session_def)

lemma update_dataset_unattached:
  assumes "cache_dataset w = Some ds" and "ds \<noteq> []"
  obtains w' r where
    "update_dataset env None w = Inr (w', None)"
    "cache_dataset w' = Some (fst (unattached_loop env
        (get_all_file_path env (split_head (filepath (hd ds))) (Some image_filter)) ds []))"
    "trace w' = trace w @ snd (unattached_loop env
        (get_all_file_path env (split_head (filepath (hd ds))) (Some image_filter)) ds [])
        @ DatasetSave # r"
    "set r \<subseteq> {SessionRefresh}"
proof -
  let ?imgs = "get_all_file_path env (split_head (filepath (hd ds))) (Some image_filter)"
  let ?L = "unattached_loop env ?imgs ds []"
  let ?w1 = "w\<lparr>cache_dataset := Some (fst ?L), trace := (trace w @ snd ?L) @ [DatasetSave]\<rparr>"
  from assms obtain f rest where ds: "ds = f # rest" by (cases ds) auto
  have "update_dataset env None w = Inr (refresh_session ?w1, None)"
    using assms(1) ds
    by (simp add: update_dataset_def Let_def case_prod_beta
        unattached_loop_trace [of env _ _ "trace w"])
  moreover obtain r where "trace (refresh_session ?w1) = trace ?w1 @ r" "set r \<subseteq> {SessionRefresh}"
    using trace_refresh_session [of ?w1] by blast
  ultimately show ?thesis
    by (intro that [of "refresh_session ?w1" r]) simp_all
qed

lemma update_dataset_attached:
  obtains w' r where
    "update_dataset env (Some ds) w = Inr (w', Some (map (\<lambda>s. fst (attached_member env s)) ds))"
    "cache_dataset w' = cache_dataset w"
    "trace w' = trace w @ snd (attached_loop env ds) @ r"
    "set r \<subseteq> {SessionRefresh}"
proof -
  let ?w1 = "w\<lparr>trace := trace w @ snd (attached_loop env ds)\<rparr>"
  have "update_dataset env (Some ds) w =
          Inr (refresh_session ?w1, Some (map (\<lambda>s. fst (attached_member env s)) ds))"
    by (simp add: update_dataset_def case_prod_beta fst_attached_loop)
  moreover obtain r where "trace (refresh_session ?w1) = trace ?w1 @ r" "set r \<subseteq> {SessionRefresh}"
    using trace_refresh_session [of ?w1] by blast
  ultimately show ?thesis
    by (intro that [of "refresh_session ?w1" r]) simp_all
qed

lemma getitem_nonempty: "getitem ds p = Some s \<Longrightarrow> ds \<noteq> []"
  by (auto simp: getitem_def)

lemma unattached_member_unchanged:
  assumes "path_exists env (splitext_root (filepath s) @ ''.xml'')"
    and "get_field s ''xml_md5'' = Inr (PStr (md5sum env (splitext_root (filepath s) @ ''.xml'')))"
  shows "fst (unattached_member env s) = s"
  using assms by (simp add: unattached_member_def Let_def)

lemma attached_member_unchanged:
  assumes "path_exists env (splitext_root (filepath s) @ ''.xml'')"
    and "get_field s ''xml_md5'' = Inr (PStr (md5sum env (splitext_root (filepath s) @ ''.xml'')))"
  shows "fst (attached_member env s) = s"
  using assms by (simp add: attached_member_def Let_def)











lemma count_filepaths_unattached_loop:
  assumes gen: "\<And>q. filepath (generate_sgcc_sample env q) = q"
  shows "count_list (map filepath (fst (unattached_loop env imgs ds tr))) q =
           (if q \<in> set imgs \<and> getitem ds q = None then 1 else count_list (map filepath ds) q)"
proof (induction imgs arbitrary: ds tr)
  case Nil
  then show ?case by simp
next
  case (Cons q0 imgs)
  show ?case
  proof (cases "getitem ds q0")
    case None
    then have z: "count_list (map filepath ds) q0 = 0"
      by (simp add: getitem_None_iff count_list_0_iff del: set_map)
    have step: "unattached_loop env (q0 # imgs) ds tr =
                  unattached_loop env imgs (ds @ [generate_sgcc_sample env q0]) (tr @ [AddSample q0])"
      using None by simp
    have new: "getitem (ds @ [generate_sgcc_sample env q0]) q = None \<longleftrightarrow>
                 getitem ds q = None \<and> q \<noteq> q0"
      by (auto simp: getitem_None_iff gen)
    show ?thesis
      unfolding step Cons.IH new using z None by (auto simp: gen)
  next
    case (Some sq)
    have fq: "filepath sq = q0" using Some by (rule getitem_filepath)
    have "map filepath (put_sample q0 (fst (unattached_member env sq)) ds) = map filepath ds"
      by (simp add: map_filepath_put_sample fq)
    then have same: "getitem (put_sample q0 (fst (unattached_member env sq)) ds) q = None \<longleftrightarrow>
                 getitem ds q = None" for q
      by (simp add: getitem_None_iff)
    have step: "unattached_loop env (q0 # imgs) ds tr =
                  unattached_loop env imgs (put_sample q0 (fst (unattached_member env sq)) ds)
                    (tr @ snd (unattached_member env sq))"
      using Some by (simp add: case_prod_beta)
    show ?thesis
      unfolding step Cons.IH same using Some
      by (auto simp: map_filepath_put_sample fq)
  qed
qed

lemma unattached_loop_not_visited:
  "p \<notin> set imgs \<Longrightarrow> getitem ds p = Some s \<Longrightarrow>
   getitem (fst (unattached_loop env imgs ds tr)) p = Some s"
proof (induction imgs arbitrary: ds tr)
  case Nil
  then show ?case by simp
next
  case (Cons q imgs)
  then have ne: "q \<noteq> p" and nm: "p \<notin> set imgs" by auto
  show ?case
  proof (cases "getitem ds q")
    case None
    with Cons.IH [OF nm, of "ds @ [generate_sgcc_sample env q]"] Cons.prems(2)
    show ?thesis by (simp add: getitem_append_Some)
  next
    case (Some sq)
    have fq: "filepath sq = q" using Some by (rule getitem_filepath)
    have "getitem (put_sample q (fst (unattached_member env sq)) ds) p = Some s"
      using ne Cons.prems(2) by (simp add: getitem_put_sample_other fq)
    from Cons.IH [OF nm this] Some show ?thesis by (simp add: case_prod_beta)
  qed
qed

lemma getitem_append_new:
  "getitem ds p = None \<Longrightarrow> getitem (ds @ [x]) p = (if filepath x = p then Some x else None)"
  by (induction ds) (auto simp: getitem_def split: if_splits)

lemma unattached_loop_added:
  assumes gen: "\<And>q. filepath (generate_sgcc_sample env q) = q"
  shows "distinct imgs \<Longrightarrow> p \<in> set imgs \<Longrightarrow> getitem ds p = None \<Longrightarrow>
         getitem (fst (unattached_loop env imgs ds tr)) p = Some (generate_sgcc_sample env p)"
proof (induction imgs arbitrary: ds tr)
  case Nil
  then show ?case by simp
next
  case (Cons q imgs)
  show ?case
  proof (cases "q = p")
    case True
    with Cons.prems have "p \<notin> set imgs" by simp
    moreover have "getitem (ds @ [generate_sgcc_sample env p]) p = Some (generate_sgcc_sample env p)"
      using Cons.prems(3) by (simp add: getitem_append_new gen)
    ultimately show ?thesis using True Cons.prems(3)
      by (simp add: unattached_loop_not_visited)
  next
    case False
    with Cons.prems have d: "distinct imgs" and mem: "p \<in> set imgs" by auto
    show ?thesis
    proof (cases "getitem ds q")
      case None
      have "getitem (ds @ [generate_sgcc_sample env q]) p = None"
        using Cons.prems(3) False by (simp add: getitem_append_new gen)
      from Cons.IH [OF d mem this] None show ?thesis by simp
    next
      case (Some sq)
      have fq: "filepath sq = q" using Some by (rule getitem_filepath)
      have "getitem (put_sample q (fst (unattached_member env sq)) ds) p = None"
        using False Cons.prems(3) by (simp add: getitem_put_sample_other fq)
      from Cons.IH [OF d mem this] Some show ?thesis by (simp add: case_prod_beta)
    qed
  qed
qed

lemmas example_defs =
  sample_cat_def det_cat_def sample_same_def sample_gone_def sample_nosum_def env_ex_def
  dataset_ex_def world_ex_def sample_cat_reparsed_def sample_gone_cleared_def sample_new_def
  world_unattached_ex_def world_attached_ex_def

lemmas updater_defs =
  update_dataset_def unattached_member_def attached_member_def getitem_def refresh_session_def
  image_filter_def split_head_def splitext_root_def basename_def has_field_def get_field_def
  set_field_def clear_field_def Let_def



lemma listing_ex:
  "get_all_file_path env_ex (split_head (filepath (hd dataset_ex))) (Some image_filter) =
     [''/data/a.jpg'', ''/data/b.jpg'', ''/data/c.jpg'', ''/data/d.jpg'', ''/data/e.jpg'']"
  by (simp add: example_defs updater_defs)

lemma xml_paths_ex:
  "splitext_root (filepath sample_cat) @ ''.xml'' = ''/data/a.xml''"
  "splitext_root (filepath sample_same) @ ''.xml'' = ''/data/b.xml''"
  "splitext_root (filepath sample_gone) @ ''.xml'' = ''/data/c.xml''"
  "splitext_root (filepath sample_nosum) @ ''.xml'' = ''/data/d.xml''"
  by (simp_all add: example_defs updater_defs)

lemma getitem_ex:
  "getitem dataset_ex ''/data/a.jpg'' = Some sample_cat"
  "getitem dataset_ex ''/data/b.jpg'' = Some sample_same"
  "getitem dataset_ex ''/data/c.jpg'' = Some sample_gone"
  "getitem dataset_ex ''/data/d.jpg'' = Some sample_nosum"
  "getitem dataset_ex ''/data/e.jpg'' = None"
  by (simp_all add: example_defs updater_defs)

subsection \<open>Reparsing on a changed checksum\<close>




subsection \<open>Saves through the batch-save context\<close>




subsection \<open>A member without its sidecar\<close>



subsection \<open>A member with an unchanged checksum\<close>

text \<open>
  Claim C5. For a dataset member whose sidecar exists and whose cached checksum equals
  the freshly computed one, the sample after the update is the sample before it, in
  both modes: label, metadata and every other field are unmodified.
\<close>

theorem unchanged_checksum_leaves_sample:
  assumes ex: "path_exists env (splitext_root (filepath s) @ ''.xml'')"
    and same: "get_field s ''xml_md5'' =
                 Inr (PStr (md5sum env (splitext_root (filepath s) @ ''.xml'')))"
  shows "(cache_dataset w = Some ds \<and> getitem ds p = Some s \<longrightarrow>
            (\<exists>w' ds'. update_dataset env None w = Inr (w', None) \<and>
                cache_dataset w' = Some ds' \<and> getitem ds' p = Some s)) \<and>
         (i < length ds \<and> ds ! i = s \<longrightarrow>
            (\<exists>w' ds'. update_dataset env (Some ds) w = Inr (w', Some ds') \<and>
                length ds' = length ds \<and> ds' ! i = s))"
proof (intro conjI impI)
  assume a: "cache_dataset w = Some ds \<and> getitem ds p = Some s"
  then have ne: "ds \<noteq> []" by (auto dest: getitem_nonempty)
  from a ne obtain w' r where
    u: "update_dataset env None w = Inr (w', None)"
    and c: "cache_dataset w' = Some (fst (unattached_loop env
        (get_all_file_path env (split_head (filepath (hd ds))) (Some image_filter)) ds []))"
    by (blast elim: update_dataset_unattached)
  have "getitem (fst (unattached_loop env
        (get_all_file_path env (split_head (filepath (hd ds))) (Some image_filter)) ds [])) p = Some s"
    using a unattached_member_unchanged [OF ex same] by (intro unattached_loop_stable) simp_all
  with u c show "\<exists>w' ds'. update_dataset env None w = Inr (w', None) \<and>
                cache_dataset w' = Some ds' \<and> getitem ds' p = Some s" by blast
next
  assume a: "i < length ds \<and> ds ! i = s"
  obtain w' r where
    u: "update_dataset env (Some ds) w = Inr (w', Some (map (\<lambda>s. fst (attached_member env s)) ds))"
    by (rule update_dataset_attached [of env ds w])
  moreover have "map (\<lambda>s. fst (attached_member env s)) ds ! i = s"
    using a attached_member_unchanged [OF ex same] by simp
  ultimately show "\<exists>w' ds'. update_dataset env (Some ds) w = Inr (w', Some ds') \<and>
                length ds' = length ds \<and> ds' ! i = s"
    by (intro exI [of _ w'] exI [of _ "map (\<lambda>s. fst (attached_member env s)) ds"]) simp
qed

theorem unchanged_checksum_leaves_sample_witness:
  "path_exists env_ex (splitext_root (filepath sample_same) @ ''.xml'') \<and>
   get_field sample_same ''xml_md5'' =
     Inr (PStr (md5sum env_ex (splitext_root (filepath sample_same) @ ''.xml''))) \<and>
   cache_dataset world_ex = Some dataset_ex \<and>
   getitem dataset_ex ''/data/b.jpg'' = Some sample_same \<and>
   (\<exists>w' ds'. update_dataset env_ex None world_ex = Inr (w', None) \<and>
       cache_dataset w' = Some ds' \<and> getitem ds' ''/data/b.jpg'' = Some sample_same) \<and>
   1 < length dataset_ex \<and> dataset_ex ! 1 = sample_same \<and>
   (\<exists>w' ds'. update_dataset env_ex (Some dataset_ex) world_ex = Inr (w', Some ds') \<and>
       length ds' = length dataset_ex \<and> ds' ! 1 = sample_same)"
proof -
  have h1: "path_exists env_ex (splitext_root (filepath sample_same) @ ''.xml'')"
    by (simp add: xml_paths_ex) (simp add: env_ex_def)
  have h2: "get_field sample_same ''xml_md5'' =
     Inr (PStr (md5sum env_ex (splitext_root (filepath sample_same) @ ''.xml'')))"
    by (simp add: env_ex_def sample_same_def get_field_def)
  have h3: "cache_dataset world_ex = Some dataset_ex" by (simp add: world_ex_def)
  note h4 = getitem_ex(2)
  have h5: "1 < length dataset_ex \<and> dataset_ex ! 1 = sample_same" by (simp add: dataset_ex_def)
  from unchanged_checksum_leaves_sample [OF h1 h2, of world_ex dataset_ex "''/data/b.jpg''" 1]
    h1 h2 h3 h4 h5
  show ?thesis by blast
qed

subsection \<open>New media files\<close>

text \<open>
  Claim C6. The sample builder is assumed to give a sample whose path is the path it
  was asked for. Without a dataset argument, the dataset after the update has exactly
  one sample for every listed media file that was no member, and as many samples as
  before for every other path; when the listing has no duplicates the new sample is
  the one that the sample builder returns. With a dataset argument the samples keep
  their paths and their number, and no sample is added.
\<close>

theorem unattached_adds_attached_never:
  assumes gen: "\<forall>q. filepath (generate_sgcc_sample env q) = q"
  shows "(cache_dataset w = Some ds \<and> ds \<noteq> [] \<and>
          imgs = get_all_file_path env (split_head (filepath (hd ds))) (Some image_filter) \<longrightarrow>
            (\<exists>w' ds'. update_dataset env None w = Inr (w', None) \<and> cache_dataset w' = Some ds' \<and>
               (\<forall>q. count_list (map filepath ds') q =
                      (if q \<in> set imgs \<and> getitem ds q = None then 1
                       else count_list (map filepath ds) q)) \<and>
               (distinct imgs \<longrightarrow>
                  (\<forall>q \<in> set imgs. getitem ds q = None \<longrightarrow>
                      getitem ds' q = Some (generate_sgcc_sample env q))))) \<and>
         (\<exists>w' ds' effs. update_dataset env (Some ds) w = Inr (w', Some ds') \<and>
             map filepath ds' = map filepath ds \<and>
             trace w' = trace w @ effs \<and> (\<forall>q. AddSample q \<notin> set effs))"
proof (intro conjI impI)
  assume a: "cache_dataset w = Some ds \<and> ds \<noteq> [] \<and>
          imgs = get_all_file_path env (split_head (filepath (hd ds))) (Some image_filter)"
  let ?L = "unattached_loop env imgs ds []"
  from a obtain w' r where
    u: "update_dataset env None w = Inr (w', None)"
    and c: "cache_dataset w' = Some (fst ?L)"
    by (blast elim: update_dataset_unattached)
  have cnt: "\<forall>q. count_list (map filepath (fst ?L)) q =
                      (if q \<in> set imgs \<and> getitem ds q = None then 1
                       else count_list (map filepath ds) q)"
    using gen by (simp add: count_filepaths_unattached_loop)
  have new: "distinct imgs \<longrightarrow>
                  (\<forall>q \<in> set imgs. getitem ds q = None \<longrightarrow>
                      getitem (fst ?L) q = Some (generate_sgcc_sample env q))"
    using gen by (simp add: unattached_loop_added)
  from u c cnt new
  show "\<exists>w' ds'. update_dataset env None w = Inr (w', None) \<and> cache_dataset w' = Some ds' \<and>
               (\<forall>q. count_list (map filepath ds') q =
                      (if q \<in> set imgs \<and> getitem ds q = None then 1
                       else count_list (map filepath ds) q)) \<and>
               (distinct imgs \<longrightarrow>
                  (\<forall>q \<in> set imgs. getitem ds q = None \<longrightarrow>
                      getitem ds' q = Some (generate_sgcc_sample env q)))" by blast
next
  let ?ds' = "map (\<lambda>s. fst (attached_member env s)) ds"
  obtain w' r where
    u: "update_dataset env (Some ds) w = Inr (w', Some ?ds')"
    and c: "cache_dataset w' = cache_dataset w"
    and t: "trace w' = trace w @ snd (attached_loop env ds) @ r"
    and r: "set r \<subseteq> {SessionRefresh}"
    by (rule update_dataset_attached [of env ds w])
  have f: "map filepath ?ds' = map filepath ds" by simp
  have "\<forall>q. AddSample q \<notin> set (snd (attached_loop env ds) @ r)"
    using r add_sample_attached_loop [of _ env ds] by auto
  with u c t f
  show "\<exists>w' ds' effs. update_dataset env (Some ds) w = Inr (w', Some ds') \<and>
             map filepath ds' = map filepath ds \<and>
             trace w' = trace w @ effs \<and> (\<forall>q. AddSample q \<notin> set effs)" by blast
qed

theorem unattached_adds_attached_never_witness:
  "(\<forall>q. filepath (generate_sgcc_sample env_ex q) = q) \<and>
   cache_dataset world_ex = Some dataset_ex \<and> dataset_ex \<noteq> [] \<and>
   get_all_file_path env_ex (split_head (filepath (hd dataset_ex))) (Some image_filter) =
     [''/data/a.jpg'', ''/data/b.jpg'', ''/data/c.jpg'', ''/data/d.jpg'', ''/data/e.jpg''] \<and>
   getitem dataset_ex ''/data/e.jpg'' = None \<and>
   (\<exists>w' ds'. update_dataset env_ex None world_ex = Inr (w', None) \<and>
       cache_dataset w' = Some ds' \<and>
       count_list (map filepath ds') ''/data/e.jpg'' = 1 \<and>
       count_list (map filepath ds') ''/data/a.jpg'' = 1 \<and>
       getitem ds' ''/data/e.jpg'' = Some sample_new) \<and>
   (\<exists>w' ds' effs. update_dataset env_ex (Some dataset_ex) world_ex = Inr (w', Some ds') \<and>
       map filepath ds' = map filepath dataset_ex \<and>
       trace w' = trace world_ex @ effs \<and> AddSample ''/data/e.jpg'' \<notin> set effs)"
proof -
  let ?imgs = "[''/data/a.jpg'', ''/data/b.jpg'', ''/data/c.jpg'', ''/data/d.jpg'', ''/data/e.jpg'']"
  have h1: "\<forall>q. filepath (generate_sgcc_sample env_ex q) = q" by (simp add: env_ex_def)
  have h2: "cache_dataset world_ex = Some dataset_ex" by (simp add: world_ex_def)
  have h3: "dataset_ex \<noteq> []" by (simp add: dataset_ex_def)
  have h4: "?imgs = get_all_file_path env_ex (split_head (filepath (hd dataset_ex)))
                      (Some image_filter)"
    by (simp add: listing_ex)
  note h5 = getitem_ex(5)
  have g: "generate_sgcc_sample env_ex ''/data/e.jpg'' = sample_new"
    by (simp add: env_ex_def sample_new_def)
  have ca: "count_list (map filepath dataset_ex) ''/data/a.jpg'' = 1"
    by (simp add: example_defs)
  have d: "distinct ?imgs" by simp
  from unattached_adds_attached_never [OF h1, of world_ex dataset_ex ?imgs] h2 h3 h4
  obtain w' ds' where
    u: "update_dataset env_ex None world_ex = Inr (w', None)" "cache_dataset w' = Some ds'"
    and cnt: "\<forall>q. count_list (map filepath ds') q =
                (if q \<in> set ?imgs \<and> getitem dataset_ex q = None then 1
                 else count_list (map filepath dataset_ex) q)"
    and new: "distinct ?imgs \<longrightarrow> (\<forall>q \<in> set ?imgs. getitem dataset_ex q = None \<longrightarrow>
                getitem ds' q = Some (generate_sgcc_sample env_ex q))"
    by blast
  from cnt h5 have c1: "count_list (map filepath ds') ''/data/e.jpg'' = 1" by simp
  from cnt getitem_ex(1) ca have c2: "count_list (map filepath ds') ''/data/a.jpg'' = 1" by simp
  from new d h5 g have c3: "getitem ds' ''/data/e.jpg'' = Some sample_new" by simp
  from unattached_adds_attached_never [OF h1, of world_ex dataset_ex ?imgs]
  have att: "\<exists>w' ds' effs. update_dataset env_ex (Some dataset_ex) world_ex = Inr (w', Some ds') \<and>
       map filepath ds' = map filepath dataset_ex \<and>
       trace w' = trace world_ex @ effs \<and> AddSample ''/data/e.jpg'' \<notin> set effs"
    by blast
  from u c1 c2 c3 att h1 h2 h3 h4 [symmetric] h5 show ?thesis by blast
qed

section \<open>Properties of the calls without a dataset\<close>

text \<open>
  Claim C8. When no dataset argument is passed and the cache holds no dataset,
  \<open>export_anno_file\<close>, \<open>export_sample\<close> and \<open>update_dataset\<close> each log one warning
  and return; nothing else in the world changes. \<open>get_select_dv\<close> returns None.
\<close>

theorem no_dataset_is_noop:
  assumes "cache_dataset w = None"
  shows "export_anno_file env save_dir None w =
           (w\<lparr>trace := trace w @ [Warning ''no dataset in cache,no thing export'']\<rparr>, None) \<and>
         export_sample env save_dir None get_anno kwargs w =
           (w\<lparr>trace := trace w @ [Warning ''no dataset in cache,no thing export'']\<rparr>, None) \<and>
         update_dataset env None w =
           Inr (w\<lparr>trace := trace w @ [Warning ''no dataset in cache,do no thing'']\<rparr>, None) \<and>
         get_select_dv env txt_path w = None"
  using assms
  by (simp add: export_anno_file_def export_sample_def update_dataset_def get_select_dv_def)

theorem no_dataset_is_noop_witness:
  "cache_dataset world_none = None \<and>
   export_anno_file env_ex ''/out'' None world_none =
     (world_none\<lparr>trace := [Warning ''no dataset in cache,no thing export'']\<rparr>, None) \<and>
   export_sample env_ex ''/out'' None True [] world_none =
     (world_none\<lparr>trace := [Warning ''no dataset in cache,no thing export'']\<rparr>, None) \<and>
   update_dataset env_ex None world_none =
     Inr (world_none\<lparr>trace := [Warning ''no dataset in cache,do no thing'']\<rparr>, None) \<and>
   get_select_dv env_ex None world_none = None"
proof -
  have h: "cache_dataset world_none = None" by (simp add: world_none_def)
  have t: "trace world_none = []" by (simp add: world_none_def)
  from no_dataset_is_noop [OF h, of env_ex "''/out''" True "[]" None] h t
  show ?thesis by simp
qed

text \<open>
  Claim C9. \<open>get_select_dv\<close> returns None when the cached dataset is empty, also with
  a cached session, and when a path-list file is given that does not exist; it does not
  fall back to the session's selection then.
\<close>

theorem get_select_dv_none_cases:
  "(cache_dataset w = Some [] \<longrightarrow> get_select_dv env txt_path w = None) \<and>
   (\<not> path_exists env p \<longrightarrow> get_select_dv env (Some p) w = None)"
  by (simp add: get_select_dv_def split: option.splits)

theorem get_select_dv_none_cases_witness:
  "cache_dataset (world_ex\<lparr>cache_dataset := Some []\<rparr>) = Some [] \<and>
   cache_session (world_ex\<lparr>cache_dataset := Some []\<rparr>) = Some \<lparr>selected = []\<rparr> \<and>
   get_select_dv env_ex None (world_ex\<lparr>cache_dataset := Some []\<rparr>) = None \<and>
   \<not> path_exists env_ex ''/data/list.txt'' \<and>
   get_select_dv env_ex (Some ''/data/list.txt'') world_ex = None \<and>
   get_select_dv env_ex None world_ex = Some (Select [] dataset_ex)"
proof -
  have h1: "cache_dataset (world_ex\<lparr>cache_dataset := Some []\<rparr>) = Some []" by simp
  have h2: "\<not> path_exists env_ex ''/data/list.txt''" by (simp add: env_ex_def)
  have h3: "cache_session (world_ex\<lparr>cache_dataset := Some []\<rparr>) = Some \<lparr>selected = []\<rparr>"
    by (simp add: world_ex_def)
  have h4: "get_select_dv env_ex None world_ex = Some (Select [] dataset_ex)"
    by (simp add: get_select_dv_def world_ex_def dataset_ex_def)
  from get_select_dv_none_cases [of "world_ex\<lparr>cache_dataset := Some []\<rparr>" env_ex None "''/data/list.txt''"]
    get_select_dv_none_cases [of world_ex env_ex None "''/data/list.txt''"]
    h1 h2 h3 h4
  show ?thesis by blast
qed

end
